theory Spec2Isabelle
  imports Main "HOL-Library.Word"
begin

section \<open>Data model\<close>

text \<open>
  Go's \<open>int64\<close> is a 64-bit word: \<open>+\<close> wraps around, as \<open>dirSize += entrySize\<close> does
  in Go, and \<open>a > b\<close> on \<open>int64\<close> is the signed comparison \<open>b <s a\<close>.
\<close>

type_synonym int64 = "64 word"

text \<open>A Go \<open>error\<close> value, kept as its message.\<close>

datatype error = Error string

text \<open>
  The struct \<open>visualiser\<close> of \<open>src/main.go\<close>. The field \<open>ignoreRegexp\<close> is a
  \<open>*regexp.Regexp\<close>: \<open>None\<close> is the nil pointer, \<open>Some m\<close> a compiled expression
  given by its \<open>MatchString\<close>.
\<close>

record visualiser =
  sizeThreshold :: int64
  ignoreRegexp :: "(string \<Rightarrow> bool) option"

text \<open>
  The directory tree that \<open>os.ReadDir\<close> and \<open>DirEntry.Info\<close> read.
  \<^item> \<open>entry\<close> is one \<open>DirEntry\<close> with its name, classified by \<open>entry.Type()\<close>:
    \<open>IsRegular()\<close>, \<open>IsDir()\<close>, or neither (symlinks, devices, sockets).
    A regular entry carries the pair \<open>(info, err)\<close> that \<open>entry.Info()\<close> returns:
    the \<open>FileInfo\<close> is \<open>None\<close> for the nil interface value and \<open>Some n\<close> for
    a value with \<open>Size() = n\<close>; the error is \<open>None\<close> for nil. A lookup that
    succeeds returns \<open>(Some n, None)\<close>. A lookup that fails returns
    \<open>(None, Some e)\<close>: the \<open>lstat\<close> behind \<open>Info\<close> in package \<open>os\<close> returns the
    nil \<open>FileInfo\<close> together with its error.
  \<^item> \<open>dirnode\<close> is what \<open>os.ReadDir\<close> returns for a directory: an error, or its
    entries in the order of the listing, which \<open>os.ReadDir\<close> sorts by filename.
\<close>

datatype entry =
    Regular string "int64 option" "error option"
  | Directory string dirnode
  | Other string
  and dirnode = ReadDirErr error | Entries "entry list"

text \<open>
  Standard output as the sequence of print calls: \<open>Blank\<close> is \<open>fmt.Println()\<close>,
  \<open>Line k path size\<close> is \<open>fmt.Printf("%v: %v\n", path, humanize.BigBytes(size))\<close>.
  The tag \<open>k\<close> records what the printing site knows about the printed entry
  (\<open>entry.Type()\<close>, or that it is the argument of \<open>visualise\<close>); it is not part of
  the printed text.
\<close>

datatype printed = FileEntry | DirEntry | OtherEntry | RootDir

datatype out = Blank | Line printed string int64

text \<open>The calls of \<open>log.Printf\<close>, one constructor per format string of the source.\<close>

datatype logmsg =
    ErrReadDir string error
  | WarnSkipDir string
  | ErrFileInfo string error
  | WarnFileSkipped string
  | WarnIgnoreDir string
  | ErrVisualise string error

record io =
  stdout :: "out list"
  stderr :: "logmsg list"

definition io0 :: io where
  "io0 = \<lparr>stdout = [], stderr = []\<rparr>"

definition Println :: "io \<Rightarrow> io" where
  "Println s = s\<lparr>stdout := stdout s @ [Blank]\<rparr>"

definition Printf :: "printed \<Rightarrow> string \<Rightarrow> int64 \<Rightarrow> io \<Rightarrow> io" where
  "Printf k path n s = s\<lparr>stdout := stdout s @ [Line k path n]\<rparr>"

definition log_Printf :: "logmsg \<Rightarrow> io \<Rightarrow> io" where
  "log_Printf m s = s\<lparr>stderr := stderr s @ [m]\<rparr>"

text \<open>
  A call either returns or panics. Nothing in the program recovers a panic, so a
  panic ends the run with the output written so far.
\<close>

datatype 'a outcome = Panic | Return 'a

text \<open>
  \<open>render\<close> gives the text of one output event, for a size formatter \<open>bigBytes\<close>
  standing for \<open>humanize.BigBytes(big.NewInt(n))\<close> of the external package.
\<close>

fun render :: "(int64 \<Rightarrow> string) \<Rightarrow> out \<Rightarrow> string" where
  "render bigBytes Blank = []"
| "render bigBytes (Line k path n) = path @ '': '' @ bigBytes n"

section \<open>The walk of src/main.go\<close>

definition shouldSkipDir :: "visualiser \<Rightarrow> string \<Rightarrow> bool" where
  "shouldSkipDir v dir = (case ignoreRegexp v of None \<Rightarrow> False | Some m \<Rightarrow> m dir)"

text \<open>
  Lines 135 to 153 of \<open>getDirSize\<close>: the threshold test with the printing it guards,
  and the accumulation into \<open>dirSize\<close>. The loop variables are
  \<open>(dirSize, filesPrintedInThisDir, shouldPrintAClosingNewLine)\<close>.
\<close>

definition printEntry ::
  "int64 \<Rightarrow> printed \<Rightarrow> string \<Rightarrow> int64 \<Rightarrow> int64 \<times> nat \<times> bool \<Rightarrow> io \<Rightarrow> (int64 \<times> nat \<times> bool) \<times> io" where
  "printEntry threshold k fullPath entrySize acc s =
     (case acc of (dirSize, filesPrintedInThisDir, shouldPrintAClosingNewLine) \<Rightarrow>
        if threshold <s entrySize then
          let s1 = (if k = FileEntry \<and> filesPrintedInThisDir = 0 then Println s else s);
              s2 = Printf k fullPath entrySize s1;
              s3 = (if shouldPrintAClosingNewLine then Println s2 else s2)
          in ((dirSize + entrySize,
               (if k = FileEntry then filesPrintedInThisDir + 1 else filesPrintedInThisDir),
               shouldPrintAClosingNewLine), s3)
        else ((dirSize + entrySize, filesPrintedInThisDir, shouldPrintAClosingNewLine), s))"

text \<open>
  \<open>getDirSize\<close> (lines 82 to 157) with its loop over the entries. \<open>join\<close> stands for
  \<open>filepath.Join\<close>. In the regular-file case the source calls \<open>info.Size()\<close> before
  it looks at \<open>err\<close>: on a nil \<open>info\<close> that call panics (a method call on a nil
  interface value), whatever \<open>err\<close> is; the branch that logs and continues is
  reached only with a non-nil \<open>info\<close>.
\<close>

fun getDirSize ::
    "visualiser \<Rightarrow> (string \<Rightarrow> string \<Rightarrow> string) \<Rightarrow> string \<Rightarrow> dirnode \<Rightarrow> io
       \<Rightarrow> (int64 \<times> nat \<times> error option) outcome \<times> io"
  and entriesLoop ::
    "visualiser \<Rightarrow> (string \<Rightarrow> string \<Rightarrow> string) \<Rightarrow> string \<Rightarrow> entry list
       \<Rightarrow> int64 \<times> nat \<times> bool \<Rightarrow> io \<Rightarrow> (int64 \<times> nat \<times> bool) outcome \<times> io"
where
  "getDirSize v join dir (ReadDirErr err) s =
     (Return (0, 0, None), log_Printf (WarnSkipDir dir) (log_Printf (ErrReadDir dir err) s))"
| "getDirSize v join dir (Entries dirEntries) s =
     (case entriesLoop v join dir dirEntries (0, 0, False) s of
        (Panic, s') \<Rightarrow> (Panic, s')
      | (Return (dirSize, filesPrintedInThisDir, c), s') \<Rightarrow>
          (Return (dirSize, filesPrintedInThisDir, None), s'))"
| "entriesLoop v join dir [] acc s = (Return acc, s)"
| "entriesLoop v join dir (Regular name None err # rest) acc s = (Panic, s)"
| "entriesLoop v join dir (Regular name (Some n) (Some err) # rest) acc s =
     entriesLoop v join dir rest acc
       (log_Printf (WarnFileSkipped (join dir name))
          (log_Printf (ErrFileInfo (join dir name) err) s))"
| "entriesLoop v join dir (Regular name (Some n) None # rest) acc s =
     (case printEntry (sizeThreshold v) FileEntry (join dir name) n acc s of
        (acc', s') \<Rightarrow> entriesLoop v join dir rest acc' s')"
| "entriesLoop v join dir (Directory name sub # rest) acc s =
     (if shouldSkipDir v (join dir name)
      then entriesLoop v join dir rest acc (log_Printf (WarnIgnoreDir (join dir name)) s)
      else
        (case getDirSize v join (join dir name) sub s of
           (Panic, s') \<Rightarrow> (Panic, s')
         | (Return (entrySize, filesPrintedInThisEntry, Some err), s') \<Rightarrow>
             entriesLoop v join dir rest acc
               (log_Printf (WarnSkipDir dir) (log_Printf (ErrReadDir dir err) s'))
         | (Return (entrySize, filesPrintedInThisEntry, None), s') \<Rightarrow>
             (case acc of (dirSize, filesPrintedInThisDir, shouldPrintAClosingNewLine) \<Rightarrow>
               (case printEntry (sizeThreshold v) DirEntry (join dir name) entrySize
                       (dirSize, filesPrintedInThisDir,
                        shouldPrintAClosingNewLine \<or> 0 < filesPrintedInThisEntry) s' of
                  (acc', s'') \<Rightarrow> entriesLoop v join dir rest acc' s''))))"
| "entriesLoop v join dir (Other name # rest) acc s =
     (case printEntry (sizeThreshold v) OtherEntry (join dir name) 0 acc s of
        (acc', s') \<Rightarrow> entriesLoop v join dir rest acc' s')"

text \<open>\<open>visualise\<close> (lines 67 to 78), on the tree \<open>root\<close> found at the path \<open>dir\<close>.\<close>

definition visualise ::
  "visualiser \<Rightarrow> (string \<Rightarrow> string \<Rightarrow> string) \<Rightarrow> string \<Rightarrow> dirnode \<Rightarrow> io \<Rightarrow> unit outcome \<times> io" where
  "visualise v join dir root s =
     (case getDirSize v join dir root s of
        (Panic, s') \<Rightarrow> (Panic, s')
      | (Return (dirSize, n, Some err), s') \<Rightarrow> (Return (), log_Printf (ErrVisualise dir err) s')
      | (Return (dirSize, n, None), s') \<Rightarrow>
          (Return (),
           if sizeThreshold v <s dirSize then Println (Printf RootDir dir dirSize s') else s'))"

section \<open>The walk of the earlier version, src/unnamed/part_000\<close>

text \<open>
  \<open>getDirSize(dir, sizeThreshold)\<close> of the earlier version (lines 60 to 127): a plain
  function taking the threshold, with no exclusion test in the directory case.
\<close>

fun getDirSize_part_000 ::
    "(string \<Rightarrow> string \<Rightarrow> string) \<Rightarrow> string \<Rightarrow> int64 \<Rightarrow> dirnode \<Rightarrow> io
       \<Rightarrow> (int64 \<times> nat \<times> error option) outcome \<times> io"
  and entriesLoop_part_000 ::
    "(string \<Rightarrow> string \<Rightarrow> string) \<Rightarrow> string \<Rightarrow> int64 \<Rightarrow> entry list
       \<Rightarrow> int64 \<times> nat \<times> bool \<Rightarrow> io \<Rightarrow> (int64 \<times> nat \<times> bool) outcome \<times> io"
where
  "getDirSize_part_000 join dir threshold (ReadDirErr err) s =
     (Return (0, 0, None), log_Printf (WarnSkipDir dir) (log_Printf (ErrReadDir dir err) s))"
| "getDirSize_part_000 join dir threshold (Entries dirEntries) s =
     (case entriesLoop_part_000 join dir threshold dirEntries (0, 0, False) s of
        (Panic, s') \<Rightarrow> (Panic, s')
      | (Return (dirSize, filesPrintedInThisDir, c), s') \<Rightarrow>
          (Return (dirSize, filesPrintedInThisDir, None), s'))"
| "entriesLoop_part_000 join dir threshold [] acc s = (Return acc, s)"
| "entriesLoop_part_000 join dir threshold (Regular name None err # rest) acc s = (Panic, s)"
| "entriesLoop_part_000 join dir threshold (Regular name (Some n) (Some err) # rest) acc s =
     entriesLoop_part_000 join dir threshold rest acc
       (log_Printf (WarnFileSkipped (join dir name))
          (log_Printf (ErrFileInfo (join dir name) err) s))"
| "entriesLoop_part_000 join dir threshold (Regular name (Some n) None # rest) acc s =
     (case printEntry threshold FileEntry (join dir name) n acc s of
        (acc', s') \<Rightarrow> entriesLoop_part_000 join dir threshold rest acc' s')"
| "entriesLoop_part_000 join dir threshold (Directory name sub # rest) acc s =
     (case getDirSize_part_000 join (join dir name) threshold sub s of
        (Panic, s') \<Rightarrow> (Panic, s')
      | (Return (entrySize, filesPrintedInThisEntry, Some err), s') \<Rightarrow>
          entriesLoop_part_000 join dir threshold rest acc
            (log_Printf (WarnSkipDir dir) (log_Printf (ErrReadDir dir err) s'))
      | (Return (entrySize, filesPrintedInThisEntry, None), s') \<Rightarrow>
          (case acc of (dirSize, filesPrintedInThisDir, shouldPrintAClosingNewLine) \<Rightarrow>
            (case printEntry threshold DirEntry (join dir name) entrySize
                    (dirSize, filesPrintedInThisDir,
                     shouldPrintAClosingNewLine \<or> 0 < filesPrintedInThisEntry) s' of
               (acc', s'') \<Rightarrow> entriesLoop_part_000 join dir threshold rest acc' s'')))"
| "entriesLoop_part_000 join dir threshold (Other name # rest) acc s =
     (case printEntry threshold OtherEntry (join dir name) 0 acc s of
        (acc', s') \<Rightarrow> entriesLoop_part_000 join dir threshold rest acc' s')"

section \<open>Notions of the specification\<close>

text \<open>
  The cumulative size in the specification's words: the sum, over the unbounded
  integers, of the sizes of the regular files of a subtree that are reached without
  crossing a subdirectory matched by the exclusion pattern or an unreadable one.
\<close>

fun subtreeSize :: "visualiser \<Rightarrow> (string \<Rightarrow> string \<Rightarrow> string) \<Rightarrow> string \<Rightarrow> dirnode \<Rightarrow> int"
  and entriesSize :: "visualiser \<Rightarrow> (string \<Rightarrow> string \<Rightarrow> string) \<Rightarrow> string \<Rightarrow> entry list \<Rightarrow> int"
where
  "subtreeSize v join dir (ReadDirErr err) = 0"
| "subtreeSize v join dir (Entries es) = entriesSize v join dir es"
| "entriesSize v join dir [] = 0"
| "entriesSize v join dir (Regular name (Some n) None # rest) = sint n + entriesSize v join dir rest"
| "entriesSize v join dir (Regular name info err # rest) = entriesSize v join dir rest"
| "entriesSize v join dir (Directory name sub # rest) =
     (if shouldSkipDir v (join dir name) then 0 else subtreeSize v join (join dir name) sub)
       + entriesSize v join dir rest"
| "entriesSize v join dir (Other name # rest) = entriesSize v join dir rest"

text \<open>
  Whether the walk meets a regular file for which \<open>entry.Info()\<close> returns the nil
  \<open>FileInfo\<close>: such a file in the listing, or in a subdirectory that is neither
  excluded nor unreadable.
\<close>

fun nilFileInfo :: "visualiser \<Rightarrow> (string \<Rightarrow> string \<Rightarrow> string) \<Rightarrow> string \<Rightarrow> dirnode \<Rightarrow> bool"
  and nilFileInfoIn :: "visualiser \<Rightarrow> (string \<Rightarrow> string \<Rightarrow> string) \<Rightarrow> string \<Rightarrow> entry list \<Rightarrow> bool"
where
  "nilFileInfo v join dir (ReadDirErr err) = False"
| "nilFileInfo v join dir (Entries es) = nilFileInfoIn v join dir es"
| "nilFileInfoIn v join dir [] = False"
| "nilFileInfoIn v join dir (Regular name None err # rest) = True"
| "nilFileInfoIn v join dir (Regular name (Some n) err # rest) = nilFileInfoIn v join dir rest"
| "nilFileInfoIn v join dir (Directory name sub # rest) =
     (if shouldSkipDir v (join dir name) then nilFileInfoIn v join dir rest
      else if nilFileInfo v join (join dir name) sub then True
      else nilFileInfoIn v join dir rest)"
| "nilFileInfoIn v join dir (Other name # rest) = nilFileInfoIn v join dir rest"

text \<open>Whether every file size that a tree reports is non-negative, as sizes on disk are.\<close>

fun sizesNonneg :: "dirnode \<Rightarrow> bool"
  and entriesNonneg :: "entry list \<Rightarrow> bool"
where
  "sizesNonneg (ReadDirErr err) = True"
| "sizesNonneg (Entries es) = entriesNonneg es"
| "entriesNonneg [] = True"
| "entriesNonneg (Regular name (Some n) None # rest) = (if 0 \<le>s n then entriesNonneg rest else False)"
| "entriesNonneg (Regular name info err # rest) = entriesNonneg rest"
| "entriesNonneg (Directory name sub # rest) = (if sizesNonneg sub then entriesNonneg rest else False)"
| "entriesNonneg (Other name # rest) = entriesNonneg rest"

text \<open>The sizes on the printed lines: of every line, and of the lines of regular files.\<close>

fun sizeOf :: "out \<Rightarrow> int" where
  "sizeOf Blank = 0"
| "sizeOf (Line k path n) = sint n"

fun fileSizeOf :: "out \<Rightarrow> int" where
  "fileSizeOf Blank = 0"
| "fileSizeOf (Line k path n) = (if k = FileEntry then sint n else 0)"

definition printedSizes :: "out list \<Rightarrow> int" where
  "printedSizes os = sum_list (map sizeOf os)"

definition printedFileSizes :: "out list \<Rightarrow> int" where
  "printedFileSizes os = sum_list (map fileSizeOf os)"

text \<open>Output \<open>d\<close> written after output \<open>s\<close>.\<close>

definition io_append :: "io \<Rightarrow> io \<Rightarrow> io" where
  "io_append s d = \<lparr>stdout = stdout s @ stdout d, stderr = stderr s @ stderr d\<rparr>"

text \<open>Whether an output event respects the threshold: a printed size lies strictly above it.\<close>

fun aboveThreshold :: "int64 \<Rightarrow> out \<Rightarrow> bool" where
  "aboveThreshold th Blank = True"
| "aboveThreshold th (Line k path n) = (th <s n)"

text \<open>
  \<open>filepath.Join(dir, name)\<close> for a clean \<open>dir\<close> other than the root and a plain
  \<open>name\<close>; used for the concrete runs below.
\<close>

definition joinSlash :: "string \<Rightarrow> string \<Rightarrow> string" where
  "joinSlash dir name = dir @ ''/'' @ name"

text \<open>
  A configuration and a tree for concrete runs: threshold 100 bytes, the exclusion
  pattern matching exactly \<open>/r/tmp\<close>; under \<open>/r\<close>, listed by filename, the file
  \<open>a\<close> of 50 bytes, the directory \<open>d\<close> with files of 70 and 150 bytes, the
  symlink \<open>link\<close>, the unreadable directory \<open>locked\<close>, and the excluded directory
  \<open>tmp\<close> with a file of 500 bytes.
\<close>

definition exampleConfig :: visualiser where
  "exampleConfig = \<lparr>sizeThreshold = 100, ignoreRegexp = Some (\<lambda>path. path = ''/r/tmp'')\<rparr>"

definition plainConfig :: visualiser where
  "plainConfig = \<lparr>sizeThreshold = 100, ignoreRegexp = None\<rparr>"

definition exampleTree :: dirnode where
  "exampleTree = Entries
     [Regular ''a'' (Some 50) None,
      Directory ''d'' (Entries [Regular ''c'' (Some 70) None, Regular ''e'' (Some 150) None]),
      Other ''link'',
      Directory ''locked'' (ReadDirErr (Error ''permission denied'')),
      Directory ''tmp'' (Entries [Regular ''big'' (Some 500) None])]"

section \<open>Induction over directory trees\<close>

lemma tree_induct [case_names ReadDirErr Entries Nil Regular Directory Other]:
  assumes "\<And>err. P (ReadDirErr err)"
    and "\<And>es. Q es \<Longrightarrow> P (Entries es)"
    and "Q []"
    and "\<And>name info err rest. Q rest \<Longrightarrow> Q (Regular name info err # rest)"
    and "\<And>name sub rest. P sub \<Longrightarrow> Q rest \<Longrightarrow> Q (Directory name sub # rest)"
    and "\<And>name rest. Q rest \<Longrightarrow> Q (Other name # rest)"
  shows "P t" and "Q es"
proof -
  let ?R = "\<lambda>e. case e of Directory name sub \<Rightarrow> P sub | _ \<Rightarrow> True"
  have step: "Q xs" if "\<And>e. e \<in> set xs \<Longrightarrow> ?R e" for xs
    using that
  proof (induction xs)
    case Nil
    show ?case by (rule assms(3))
  next
    case (Cons e xs)
    have q: "Q xs" using Cons by simp
    have r: "?R e" using Cons.prems by simp
    show ?case
    proof (cases e)
      case (Regular name info err)
      then show ?thesis using assms(4) [OF q] by simp
    next
      case (Directory name sub)
      then show ?thesis using assms(5) [OF _ q] r by simp
    next
      case (Other name)
      then show ?thesis using assms(6) [OF q] by simp
    qed
  qed
  have r: "?R e" and p: "P t" for e t
    by (induction e and t) (auto intro: assms(1) assms(2) step)
  show "P t" by (rule p)
  show "Q es" by (rule step) (rule r)
qed

section \<open>Properties of the walk\<close>

lemma io_append_io0 [simp]: "io_append s io0 = s"
  by (simp add: io_append_def io0_def)

lemma Println_shift: "Println (io_append s d) = io_append s (Println d)"
  by (simp add: Println_def io_append_def)

lemma Printf_shift: "Printf k p n (io_append s d) = io_append s (Printf k p n d)"
  by (simp add: Printf_def io_append_def)

lemma log_Printf_shift: "log_Printf m (io_append s d) = io_append s (log_Printf m d)"
  by (simp add: log_Printf_def io_append_def)

lemma printEntry_shift:
  "printEntry th k p n acc (io_append s d) = apsnd (io_append s) (printEntry th k p n acc d)"
  by (cases acc) (simp add: printEntry_def Let_def Println_shift Printf_shift)

lemma getDirSize_shift:
  "getDirSize v join dir t (io_append s d) = apsnd (io_append s) (getDirSize v join dir t d)"
  and entriesLoop_shift:
  "entriesLoop v join dir es acc (io_append s d) = apsnd (io_append s) (entriesLoop v join dir es acc d)"
proof (induction t and es arbitrary: dir d and dir acc d rule: tree_induct)
  case (ReadDirErr err)
  show ?case by (simp add: log_Printf_shift)
next
  case (Entries es)
  show ?case by (simp add: Entries split: prod.splits outcome.splits)
next
  case Nil
  show ?case by simp
next
  case (Regular name info err rest)
  show ?case
    by (cases info; cases err)
       (simp_all add: printEntry_shift log_Printf_shift Regular split: prod.splits)
next
  case (Directory name sub rest)
  show ?case
    by (simp add: log_Printf_shift printEntry_shift Directory
          split: prod.splits outcome.splits option.splits)
next
  case (Other name rest)
  show ?case by (simp add: printEntry_shift Other split: prod.splits)
qed

lemma getDirSize_from_io0:
  "getDirSize v join dir t s = apsnd (io_append s) (getDirSize v join dir t io0)"
  using getDirSize_shift [of v join dir t s io0] by simp

lemma entriesLoop_from_io0:
  "entriesLoop v join dir es acc s = apsnd (io_append s) (entriesLoop v join dir es acc io0)"
  using entriesLoop_shift [of v join dir es acc s io0] by simp

lemma getDirSize_no_error:
  "fst (getDirSize v join dir t s) = Return (w, n, e) \<Longrightarrow> e = None"
  by (cases t) (auto split: prod.splits outcome.splits)

lemma entriesLoop_append:
  "entriesLoop v join dir (xs @ ys) acc s =
     (case entriesLoop v join dir xs acc s of
        (Panic, s') \<Rightarrow> (Panic, s')
      | (Return acc', s') \<Rightarrow> entriesLoop v join dir ys acc' s')"
proof (induction xs arbitrary: acc s)
  case Nil
  show ?case by simp
next
  case (Cons e xs)
  show ?case
  proof (cases e)
    case (Regular name info err)
    then show ?thesis by (cases info; cases err) (simp_all add: Cons split: prod.splits)
  next
    case (Directory name sub)
    then show ?thesis by (simp add: Cons split: prod.splits outcome.splits option.splits)
  next
    case (Other name)
    then show ?thesis by (simp add: Cons split: prod.splits)
  qed
qed

lemma printEntry_acc:
  "\<exists>m' s'. printEntry th k p n (dirSize, m, c) s = ((dirSize + n, m', c), s')"
  by (simp add: printEntry_def Let_def)

lemma getDirSize_returns:
  "\<not> nilFileInfo v join dir t \<Longrightarrow>
     \<exists>n s'. getDirSize v join dir t s = (Return (word_of_int (subtreeSize v join dir t), n, None), s')"
  and entriesLoop_returns:
  "\<not> nilFileInfoIn v join dir es \<Longrightarrow>
     \<exists>n c s'. entriesLoop v join dir es (dirSize, n0, c0) s
        = (Return (dirSize + word_of_int (entriesSize v join dir es), n, c), s')"
proof (induction t and es arbitrary: dir s and dir dirSize n0 c0 s rule: tree_induct)
  case (ReadDirErr err)
  show ?case by simp
next
  case (Entries es)
  from Entries.prems have "\<not> nilFileInfoIn v join dir es" by simp
  from Entries.IH [OF this, of 0 0 False s] show ?case by auto
next
  case Nil
  show ?case by simp
next
  case (Regular name info err rest)
  then obtain n where info: "info = Some n" and rest: "\<not> nilFileInfoIn v join dir rest"
    by (cases info) auto
  show ?case
  proof (cases err)
    case (Some e)
    from Regular.IH [OF rest] show ?thesis by (simp add: info Some)
  next
    case None
    obtain m' s' where pe:
      "printEntry (sizeThreshold v) FileEntry (join dir name) n (dirSize, n0, c0) s
         = ((dirSize + n, m', c0), s')"
      using printEntry_acc by blast
    from Regular.IH [OF rest, of "dirSize + n" m' c0 s'] show ?thesis
      by (auto simp: info None pe add.assoc)
  qed
next
  case (Directory name sub rest)
  show ?case
  proof (cases "shouldSkipDir v (join dir name)")
    case True
    with Directory.prems have rest: "\<not> nilFileInfoIn v join dir rest" by simp
    from Directory.IH(2) [OF rest] True show ?thesis by simp
  next
    case False
    with Directory.prems have sub: "\<not> nilFileInfo v join (join dir name) sub"
      and rest: "\<not> nilFileInfoIn v join dir rest"
      by (auto split: if_splits)
    from Directory.IH(1) [OF sub, of s] obtain k s1 where g:
      "getDirSize v join (join dir name) sub s
         = (Return (word_of_int (subtreeSize v join (join dir name) sub), k, None), s1)"
      by blast
    obtain m' s2 where pe:
      "printEntry (sizeThreshold v) DirEntry (join dir name)
          (word_of_int (subtreeSize v join (join dir name) sub)) (dirSize, n0, c0 \<or> 0 < k) s1
       = ((dirSize + word_of_int (subtreeSize v join (join dir name) sub), m', c0 \<or> 0 < k), s2)"
      using printEntry_acc by blast
    from Directory.IH(2) [OF rest,
        of "dirSize + word_of_int (subtreeSize v join (join dir name) sub)" m' "c0 \<or> 0 < k" s2]
    show ?thesis using False by (auto simp: g pe add.assoc)
  qed
next
  case (Other name rest)
  from Other.prems have rest: "\<not> nilFileInfoIn v join dir rest" by simp
  obtain m' s' where pe:
    "printEntry (sizeThreshold v) OtherEntry (join dir name) 0 (dirSize, n0, c0) s
       = ((dirSize + 0, m', c0), s')"
    using printEntry_acc by blast
  from Other.IH [OF rest, of dirSize m' c0 s'] show ?case
    using pe by auto
qed

lemma getDirSize_panics:
  "nilFileInfo v join dir t \<Longrightarrow> fst (getDirSize v join dir t s) = Panic"
  and entriesLoop_panics:
  "nilFileInfoIn v join dir es \<Longrightarrow> fst (entriesLoop v join dir es acc s) = Panic"
proof (induction t and es arbitrary: dir s and dir acc s rule: tree_induct)
  case (ReadDirErr err)
  then show ?case by simp
next
  case (Entries es)
  from Entries.prems have "nilFileInfoIn v join dir es" by simp
  from Entries.IH [OF this, of "(0, 0, False)" s] show ?case
    by (auto split: prod.splits outcome.splits)
next
  case Nil
  then show ?case by simp
next
  case (Regular name info err rest)
  show ?case
  proof (cases info)
    case None
    then show ?thesis by simp
  next
    case (Some n)
    with Regular.prems have "nilFileInfoIn v join dir rest" by simp
    from Regular.IH [OF this] show ?thesis
      by (cases err) (simp_all add: Some split: prod.splits)
  qed
next
  case (Directory name sub rest)
  show ?case
  proof (cases "shouldSkipDir v (join dir name)")
    case True
    with Directory.prems have "nilFileInfoIn v join dir rest" by simp
    from Directory.IH(2) [OF this] True show ?thesis by simp
  next
    case skip: False
    show ?thesis
    proof (cases "nilFileInfo v join (join dir name) sub")
      case True
      from Directory.IH(1) [OF True, of s] skip show ?thesis
        by (auto split: prod.splits outcome.splits)
    next
      case False
      with skip Directory.prems have "nilFileInfoIn v join dir rest" by simp
      from Directory.IH(2) [OF this] skip show ?thesis
        by (auto split: prod.splits outcome.splits option.splits)
    qed
  qed
next
  case (Other name rest)
  from Other.prems have "nilFileInfoIn v join dir rest" by simp
  from Other.IH [OF this] show ?case by (simp split: prod.splits)
qed

lemma getDirSize_Panic_iff:
  "fst (getDirSize v join dir t s) = Panic \<longleftrightarrow> nilFileInfo v join dir t"
proof
  assume p: "fst (getDirSize v join dir t s) = Panic"
  show "nilFileInfo v join dir t"
  proof (rule ccontr)
    assume "\<not> nilFileInfo v join dir t"
    from getDirSize_returns [OF this, of s] p show False by auto
  qed
next
  assume "nilFileInfo v join dir t"
  then show "fst (getDirSize v join dir t s) = Panic" by (rule getDirSize_panics)
qed


lemma printEntry_above:
  "list_all (aboveThreshold th) (stdout s) \<Longrightarrow>
     list_all (aboveThreshold th) (stdout (snd (printEntry th k p n acc s)))"
  by (cases acc) (simp add: printEntry_def Let_def Println_def Printf_def)

lemma getDirSize_above:
  "list_all (aboveThreshold (sizeThreshold v)) (stdout s) \<Longrightarrow>
     list_all (aboveThreshold (sizeThreshold v)) (stdout (snd (getDirSize v join dir t s)))"
  and entriesLoop_above:
  "list_all (aboveThreshold (sizeThreshold v)) (stdout s) \<Longrightarrow>
     list_all (aboveThreshold (sizeThreshold v)) (stdout (snd (entriesLoop v join dir es acc s)))"
proof (induction t and es arbitrary: dir s and dir acc s rule: tree_induct)
  case (ReadDirErr err)
  then show ?case by (simp add: log_Printf_def)
next
  case (Entries es)
  from Entries.IH [OF Entries.prems, of dir "(0, 0, False)"] show ?case
    by (auto split: prod.splits outcome.splits)
next
  case Nil
  then show ?case by simp
next
  case (Regular name info err rest)
  show ?case
  proof (cases info)
    case None
    with Regular.prems show ?thesis by simp
  next
    case info: (Some n)
    show ?thesis
    proof (cases err)
      case (Some e)
      from Regular.prems
      have "list_all (aboveThreshold (sizeThreshold v))
              (stdout (log_Printf (WarnFileSkipped (join dir name))
                         (log_Printf (ErrFileInfo (join dir name) e) s)))"
        by (simp add: log_Printf_def)
      from Regular.IH [OF this] show ?thesis by (simp add: info Some)
    next
      case None
      obtain acc' s' where pe:
        "printEntry (sizeThreshold v) FileEntry (join dir name) n acc s = (acc', s')"
        by (cases "printEntry (sizeThreshold v) FileEntry (join dir name) n acc s")
      from printEntry_above [OF Regular.prems, of FileEntry "join dir name" n acc] pe
      have "list_all (aboveThreshold (sizeThreshold v)) (stdout s')" by simp
      from Regular.IH [OF this] show ?thesis by (simp add: info None pe)
    qed
  qed
next
  case (Directory name sub rest)
  show ?case
  proof (cases "shouldSkipDir v (join dir name)")
    case True
    from Directory.prems
    have "list_all (aboveThreshold (sizeThreshold v))
            (stdout (log_Printf (WarnIgnoreDir (join dir name)) s))"
      by (simp add: log_Printf_def)
    from Directory.IH(2) [OF this] True show ?thesis by simp
  next
    case False
    obtain r s1 where g: "getDirSize v join (join dir name) sub s = (r, s1)"
      by (cases "getDirSize v join (join dir name) sub s")
    from Directory.IH(1) [OF Directory.prems, of "join dir name"] g
    have s1: "list_all (aboveThreshold (sizeThreshold v)) (stdout s1)" by simp
    show ?thesis
    proof (cases r)
      case Panic
      with False g s1 show ?thesis by simp
    next
      case (Return x)
      obtain w k e where x: "x = (w, k, e)" by (cases x)
      show ?thesis
      proof (cases e)
        case (Some err)
        from s1 have "list_all (aboveThreshold (sizeThreshold v))
            (stdout (log_Printf (WarnSkipDir dir) (log_Printf (ErrReadDir dir err) s1)))"
          by (simp add: log_Printf_def)
        from Directory.IH(2) [OF this] False g Return x Some show ?thesis by simp
      next
        case None
        obtain dirSize m c where acc: "acc = (dirSize, m, c)" by (cases acc)
        obtain acc' s2 where pe:
          "printEntry (sizeThreshold v) DirEntry (join dir name) w
             (dirSize, m, c \<or> 0 < k) s1 = (acc', s2)"
          by (cases "printEntry (sizeThreshold v) DirEntry (join dir name) w
                       (dirSize, m, c \<or> 0 < k) s1")
        from printEntry_above [OF s1, of DirEntry "join dir name" w "(dirSize, m, c \<or> 0 < k)"] pe
        have "list_all (aboveThreshold (sizeThreshold v)) (stdout s2)" by simp
        from Directory.IH(2) [OF this] False g Return x None acc pe show ?thesis
          by simp
      qed
    qed
  qed
next
  case (Other name rest)
  obtain acc' s' where pe:
    "printEntry (sizeThreshold v) OtherEntry (join dir name) 0 acc s = (acc', s')"
    by (cases "printEntry (sizeThreshold v) OtherEntry (join dir name) 0 acc s")
  from printEntry_above [OF Other.prems, of OtherEntry "join dir name" 0 acc] pe
  have "list_all (aboveThreshold (sizeThreshold v)) (stdout s')" by simp
  from Other.IH [OF this] show ?case by (simp add: pe)
qed

lemma visualise_above:
  "list_all (aboveThreshold (sizeThreshold v)) (stdout (snd (visualise v join dir root io0)))"
proof -
  have "list_all (aboveThreshold (sizeThreshold v)) (stdout io0)" by (simp add: io0_def)
  from getDirSize_above [OF this, of join dir root] show ?thesis
    by (auto simp: visualise_def log_Printf_def Println_def Printf_def
             split: prod.splits outcome.splits option.splits)
qed

lemma walk_eq_part_000:
  "ignoreRegexp v = None \<Longrightarrow>
     getDirSize v join dir t s = getDirSize_part_000 join dir (sizeThreshold v) t s"
  and entriesLoop_eq_part_000:
  "ignoreRegexp v = None \<Longrightarrow>
     entriesLoop v join dir es acc s = entriesLoop_part_000 join dir (sizeThreshold v) es acc s"
proof (induction t and es arbitrary: dir s and dir acc s rule: tree_induct)
  case (ReadDirErr err)
  show ?case by simp
next
  case (Entries es)
  then show ?case by simp
next
  case Nil
  show ?case by simp
next
  case (Regular name info err rest)
  then show ?case by (cases info; cases err) (simp_all split: prod.splits)
next
  case (Directory name sub rest)
  then show ?case
    by (simp add: shouldSkipDir_def split: prod.splits outcome.splits option.splits)
next
  case (Other name rest)
  then show ?case by (simp split: prod.splits)
qed

lemma stdout_log_Printf [simp]: "stdout (log_Printf m s) = stdout s"
  by (simp add: log_Printf_def)

lemma stdout_io_append [simp]: "stdout (io_append s d) = stdout s @ stdout d"
  by (simp add: io_append_def)

lemma entriesLoop_log_Printf:
  "fst (entriesLoop v join dir es acc (log_Printf m s)) = fst (entriesLoop v join dir es acc s)"
  "stdout (snd (entriesLoop v join dir es acc (log_Printf m s)))
     = stdout (snd (entriesLoop v join dir es acc s))"
  using entriesLoop_from_io0 [of v join dir es acc "log_Printf m s"]
    entriesLoop_from_io0 [of v join dir es acc s]
  by simp_all

lemma visualise_from_io0:
  "visualise v join dir root s = apsnd (io_append s) (visualise v join dir root io0)"
proof -
  obtain r d where g: "getDirSize v join dir root io0 = (r, d)"
    by (cases "getDirSize v join dir root io0")
  with getDirSize_from_io0 [of v join dir root s]
  have gs: "getDirSize v join dir root s = (r, io_append s d)" by simp
  have sh: "Println (Printf k p n (io_append s d)) = io_append s (Println (Printf k p n d))"
    for k p n
    by (simp add: Println_shift Printf_shift)
  show ?thesis
    by (simp add: visualise_def g gs sh log_Printf_shift
          split: outcome.splits option.splits prod.splits)
qed

lemma printedFileSizes_simps [simp]:
  "printedFileSizes [] = 0"
  "printedFileSizes (xs @ ys) = printedFileSizes xs + printedFileSizes ys"
  "printedFileSizes (x # xs) = fileSizeOf x + printedFileSizes xs"
  by (simp_all add: printedFileSizes_def)

lemma printEntry_file_sizes:
  "0 \<le> sint n \<Longrightarrow>
     printedFileSizes (stdout (snd (printEntry th FileEntry p n acc s)))
       \<le> printedFileSizes (stdout s) + sint n"
  by (cases acc) (simp add: printEntry_def Let_def Println_def Printf_def)

lemma printEntry_other_sizes:
  "k \<noteq> FileEntry \<Longrightarrow>
     printedFileSizes (stdout (snd (printEntry th k p n acc s))) = printedFileSizes (stdout s)"
  by (cases acc) (simp add: printEntry_def Let_def Println_def Printf_def)

lemma subtreeSize_nonneg:
  "sizesNonneg t \<Longrightarrow> 0 \<le> subtreeSize v join dir t"
  and entriesSize_nonneg:
  "entriesNonneg es \<Longrightarrow> 0 \<le> entriesSize v join dir es"
proof (induction t and es arbitrary: dir and dir rule: tree_induct)
  case (Regular name info err rest)
  then show ?case
    by (cases info; cases err) (auto simp: word_sle_eq split: if_splits)
next
  case (Directory name sub rest)
  from Directory.prems have a: "sizesNonneg sub" and b: "entriesNonneg rest"
    by (auto split: if_splits)
  from Directory.IH(1) [OF a, of "join dir name"] Directory.IH(2) [OF b, of dir]
  show ?case by simp
qed simp_all

lemma getDirSize_printed_files:
  "sizesNonneg t \<Longrightarrow>
     printedFileSizes (stdout (snd (getDirSize v join dir t s)))
       \<le> printedFileSizes (stdout s) + subtreeSize v join dir t"
  and entriesLoop_printed_files:
  "entriesNonneg es \<Longrightarrow>
     printedFileSizes (stdout (snd (entriesLoop v join dir es acc s)))
       \<le> printedFileSizes (stdout s) + entriesSize v join dir es"
proof (induction t and es arbitrary: dir s and dir acc s rule: tree_induct)
  case (ReadDirErr err)
  show ?case by simp
next
  case (Entries es)
  from Entries.prems have "entriesNonneg es" by simp
  from Entries.IH [OF this, of dir "(0, 0, False)" s] show ?case
    by (auto split: prod.splits outcome.splits)
next
  case Nil
  show ?case by simp
next
  case (Regular name info err rest)
  show ?case
  proof (cases "info \<noteq> None \<and> err = None")
    case False
    with Regular.prems have rest: "entriesNonneg rest"
      by (cases info; cases err) simp_all
    note ih = Regular.IH [OF rest]
    note nn = entriesSize_nonneg [OF rest, of v join dir]
    show ?thesis
    proof (cases info)
      case None
      with nn show ?thesis by simp
    next
      case (Some n)
      with False obtain e where e: "err = Some e" by (cases err) auto
      from ih [of dir acc "log_Printf (WarnFileSkipped (join dir name))
                             (log_Printf (ErrFileInfo (join dir name) e) s)"]
      show ?thesis by (simp add: Some e)
    qed
  next
    case True
    then obtain n where Info: "info = Some n" "err = None" by auto
    from Regular.prems Info have n: "0 \<le> sint n" and rest: "entriesNonneg rest"
      by (auto simp: word_sle_eq split: if_splits)
    obtain acc' s' where pe:
      "printEntry (sizeThreshold v) FileEntry (join dir name) n acc s = (acc', s')"
      by (cases "printEntry (sizeThreshold v) FileEntry (join dir name) n acc s")
    from printEntry_file_sizes [OF n, of "sizeThreshold v" "join dir name" acc s] pe
    have "printedFileSizes (stdout s') \<le> printedFileSizes (stdout s) + sint n" by simp
    with Regular.IH [OF rest, of dir acc' s'] show ?thesis by (simp add: Info pe)
  qed
next
  case (Directory name sub rest)
  from Directory.prems have sub: "sizesNonneg sub" and rest: "entriesNonneg rest"
    by (auto split: if_splits)
  note rest0 = entriesSize_nonneg [OF rest, of v join dir]
  show ?case
  proof (cases "shouldSkipDir v (join dir name)")
    case True
    from Directory.IH(2) [OF rest, of dir acc "log_Printf (WarnIgnoreDir (join dir name)) s"] True
    show ?thesis by simp
  next
    case False
    obtain r s1 where g: "getDirSize v join (join dir name) sub s = (r, s1)"
      by (cases "getDirSize v join (join dir name) sub s")
    from Directory.IH(1) [OF sub, of "join dir name" s] g
    have s1: "printedFileSizes (stdout s1)
                \<le> printedFileSizes (stdout s) + subtreeSize v join (join dir name) sub"
      by simp
    show ?thesis
    proof (cases r)
      case Panic
      with False g s1 rest0 show ?thesis by simp
    next
      case (Return x)
      obtain w k e where x: "x = (w, k, e)" by (cases x)
      show ?thesis
      proof (cases e)
        case (Some err)
        from Directory.IH(2) [OF rest, of dir acc
            "log_Printf (WarnSkipDir dir) (log_Printf (ErrReadDir dir err) s1)"]
          False g Return x Some s1
        show ?thesis by simp
      next
        case None
        obtain dirSize m c where acc: "acc = (dirSize, m, c)" by (cases acc)
        obtain acc' s2 where pe:
          "printEntry (sizeThreshold v) DirEntry (join dir name) w
             (dirSize, m, c \<or> 0 < k) s1 = (acc', s2)"
          by (cases "printEntry (sizeThreshold v) DirEntry (join dir name) w
                       (dirSize, m, c \<or> 0 < k) s1")
        from printEntry_other_sizes [of DirEntry "sizeThreshold v" "join dir name" w
            "(dirSize, m, c \<or> 0 < k)" s1] pe
        have "printedFileSizes (stdout s2) = printedFileSizes (stdout s1)" by simp
        with Directory.IH(2) [OF rest, of dir acc' s2] False g Return x None acc pe s1
        show ?thesis by simp
      qed
    qed
  qed
next
  case (Other name rest)
  from Other.prems have rest: "entriesNonneg rest" by simp
  obtain acc' s' where pe:
    "printEntry (sizeThreshold v) OtherEntry (join dir name) 0 acc s = (acc', s')"
    by (cases "printEntry (sizeThreshold v) OtherEntry (join dir name) 0 acc s")
  from printEntry_other_sizes [of OtherEntry "sizeThreshold v" "join dir name" 0 acc s] pe
  have "printedFileSizes (stdout s') = printedFileSizes (stdout s)" by simp
  with Other.IH [OF rest, of dir acc' s'] show ?case by (simp add: pe)
qed

lemma visualise_printed_files:
  "printedFileSizes (stdout (snd (visualise v join dir root s)))
     = printedFileSizes (stdout (snd (getDirSize v join dir root s)))"
  by (simp add: visualise_def Println_def Printf_def
        split: prod.splits outcome.splits option.splits)

section \<open>Failure of the metadata lookup\<close>

text \<open>
  C2. A regular file whose metadata lookup fails should be logged and skipped, and
  the walk should go on. In the code the lookup's result is dereferenced before the
  error is tested (lines 101 to 104), so on the nil \<open>FileInfo\<close> of a failed lookup
  the call panics: in the directory \<open>/r\<close> with the file \<open>f\<close> whose lookup fails
  followed by the file \<open>g\<close> of 150 bytes, and a threshold of 100 bytes, nothing is
  logged, \<open>g\<close> is never visited and no result is returned.
\<close>

theorem getDirSize_info_failure_panics:
  "getDirSize \<lparr>sizeThreshold = 100, ignoreRegexp = None\<rparr> joinSlash ''/r''
     (Entries [Regular ''f'' None (Some (Error ''lstat /r/f: no such file or directory'')),
               Regular ''g'' (Some 150) None]) io0
   = (Panic, \<lparr>stdout = [], stderr = []\<rparr>)"
  by (simp add: io0_def)

section \<open>The closing blank line\<close>

text \<open>
  C3. A closing blank line should follow a printed line only for a directory whose
  own call reported printed files. In the code \<open>shouldPrintAClosingNewLine\<close> is
  declared before the loop and never reset, so once one subdirectory has reported
  printed files every later printed entry of the same directory is followed by a
  blank line. In \<open>/r\<close> with the directory \<open>a\<close> (holding the file \<open>f\<close> of 150 bytes)
  followed by the file \<open>g\<close> of 150 bytes, threshold 100, the line of the file
  \<open>/r/g\<close> is followed by a blank line.
\<close>

theorem getDirSize_closing_line_after_file:
  "getDirSize \<lparr>sizeThreshold = 100, ignoreRegexp = None\<rparr> joinSlash ''/r''
     (Entries [Directory ''a'' (Entries [Regular ''f'' (Some 150) None]),
               Regular ''g'' (Some 150) None]) io0
   = (Return (300, 1, None),
      \<lparr>stdout = [Blank, Line FileEntry ''/r/a/f'' 150, Line DirEntry ''/r/a'' 150, Blank,
                 Blank, Line FileEntry ''/r/g'' 150, Blank],
       stderr = []\<rparr>)"
  by (simp add: io0_def joinSlash_def printEntry_def Println_def Printf_def shouldSkipDir_def)

section \<open>Totality of the scan\<close>

text \<open>
  C8. The scan should be total, every runtime failure being recovered. A failed
  listing is recovered, and no error is ever returned, but the panic of a failed
  metadata lookup is not: in \<open>/r\<close> with the file \<open>big\<close> of 150 bytes, the directory
  \<open>sub\<close> holding a file whose lookup fails, and the file \<open>tail\<close> of 200 bytes,
  listed in this order, by filename, threshold 100, \<open>visualise\<close> stops inside
  \<open>sub\<close> after printing \<open>big\<close>; \<open>tail\<close> and the line of \<open>/r\<close> are never reached.
\<close>

theorem visualise_aborts_partway:
  "visualise \<lparr>sizeThreshold = 100, ignoreRegexp = None\<rparr> joinSlash ''/r''
     (Entries [Regular ''big'' (Some 150) None,
               Directory ''sub''
                 (Entries [Regular ''gone'' None (Some (Error ''lstat /r/sub/gone: no such file or directory''))]),
               Regular ''tail'' (Some 200) None]) io0
   = (Panic, \<lparr>stdout = [Blank, Line FileEntry ''/r/big'' 150], stderr = []\<rparr>)"
  by (simp add: visualise_def io0_def joinSlash_def printEntry_def Println_def Printf_def
        shouldSkipDir_def)

section \<open>The threshold\<close>

text \<open>
  C6. The threshold comparison is strict for files, directories and the root: every
  line that \<open>visualise\<close> prints carries a size strictly greater than the threshold,
  so an entry whose size equals the threshold is never printed.
\<close>

theorem threshold_strict:
  "Line k path n \<in> set (stdout (snd (visualise v join dir root io0)))
     \<Longrightarrow> sizeThreshold v <s n \<and> n \<noteq> sizeThreshold v"
proof -
  assume "Line k path n \<in> set (stdout (snd (visualise v join dir root io0)))"
  moreover from visualise_above [of v join dir root]
  have "\<forall>x \<in> set (stdout (snd (visualise v join dir root io0))).
          aboveThreshold (sizeThreshold v) x"
    by (simp add: list_all_iff)
  ultimately have "aboveThreshold (sizeThreshold v) (Line k path n)" by blast
  then show ?thesis by auto
qed

theorem threshold_strict_witness:
  "Line FileEntry ''/r/b.txt'' 150 \<in> set (stdout (snd (visualise \<lparr>sizeThreshold = 100, ignoreRegexp = None\<rparr> joinSlash ''/r''
       (Entries [Regular ''a.txt'' (Some 100) None, Regular ''b.txt'' (Some 150) None]) io0)))
   \<and> (100 :: int64) <s 150 \<and> (150 :: int64) \<noteq> 100"
proof -
  have m: "Line FileEntry ''/r/b.txt'' 150 \<in> set (stdout (snd (visualise \<lparr>sizeThreshold = 100, ignoreRegexp = None\<rparr> joinSlash ''/r''
       (Entries [Regular ''a.txt'' (Some 100) None, Regular ''b.txt'' (Some 150) None]) io0)))"
    by (simp add: visualise_def io0_def joinSlash_def printEntry_def Println_def Printf_def)
  from threshold_strict [OF m] m show ?thesis by simp
qed

section \<open>The cumulative size\<close>

text \<open>
  C1. The size that \<open>getDirSize\<close> returns for a directory is the sum of the sizes
  of the regular files of its subtree that are reached without crossing an excluded
  or an unreadable subdirectory. As amended: whenever the call returns, that is, the
  walk meets no nil \<open>FileInfo\<close>, and the exact sum lies in the range of \<open>int64\<close>,
  the returned size, read as a signed number, is that sum.
\<close>

theorem getDirSize_size:
  assumes "\<not> nilFileInfo v join dir t"
    and "- (2 ^ 63) \<le> subtreeSize v join dir t" and "subtreeSize v join dir t < 2 ^ 63"
  shows "\<exists>w n. fst (getDirSize v join dir t s) = Return (w, n, None)
            \<and> sint w = subtreeSize v join dir t"
proof -
  from getDirSize_returns [OF assms(1), of s] obtain n s' where
    g: "getDirSize v join dir t s = (Return (word_of_int (subtreeSize v join dir t), n, None), s')"
    by blast
  have "sint (word_of_int (subtreeSize v join dir t) :: int64) = subtreeSize v join dir t"
    using assms(2,3) by (simp add: sint_sbintrunc' signed_take_bit_int_eq_self)
  with g show ?thesis by simp
qed

theorem getDirSize_size_witness:
  "\<not> nilFileInfo exampleConfig joinSlash ''/r'' exampleTree
   \<and> - (2 ^ 63) \<le> subtreeSize exampleConfig joinSlash ''/r'' exampleTree
   \<and> subtreeSize exampleConfig joinSlash ''/r'' exampleTree < 2 ^ 63
   \<and> subtreeSize exampleConfig joinSlash ''/r'' exampleTree = 270
   \<and> (\<exists>w n. fst (getDirSize exampleConfig joinSlash ''/r'' exampleTree io0) = Return (w, n, None)
          \<and> sint w = subtreeSize exampleConfig joinSlash ''/r'' exampleTree)"
proof -
  have a: "\<not> nilFileInfo exampleConfig joinSlash ''/r'' exampleTree"
    by (simp add: exampleConfig_def exampleTree_def joinSlash_def shouldSkipDir_def)
  have b: "subtreeSize exampleConfig joinSlash ''/r'' exampleTree = 270"
    by (simp add: exampleConfig_def exampleTree_def joinSlash_def shouldSkipDir_def)
  have c: "- (2 ^ 63) \<le> subtreeSize exampleConfig joinSlash ''/r'' exampleTree"
    by (simp add: b)
  have d: "subtreeSize exampleConfig joinSlash ''/r'' exampleTree < 2 ^ 63"
    by (simp add: b)
  from getDirSize_size [OF a c d, of io0] a b c d show ?thesis by blast
qed

text \<open>
  As first stated the claim fails where the sum leaves the range of \<open>int64\<close>: with
  a file of \<open>2^63 - 1\<close> bytes and a file of one byte in \<open>/r\<close>, the exact sum is
  \<open>2^63\<close>, and \<open>dirSize += entrySize\<close> wraps around to \<open>- 2^63\<close>.
\<close>

theorem getDirSize_size_counterexample:
  "fst (getDirSize \<lparr>sizeThreshold = 100, ignoreRegexp = None\<rparr> joinSlash ''/r''
     (Entries [Regular ''a'' (Some 9223372036854775807) None, Regular ''b'' (Some 1) None]) io0)
     = Return (0x8000000000000000, 1, None)
   \<and> sint (0x8000000000000000 :: int64) = - 9223372036854775808
   \<and> subtreeSize \<lparr>sizeThreshold = 100, ignoreRegexp = None\<rparr> joinSlash ''/r''
     (Entries [Regular ''a'' (Some 9223372036854775807) None, Regular ''b'' (Some 1) None])
     = 9223372036854775808"
  by (simp add: io0_def joinSlash_def printEntry_def Println_def Printf_def word_sless_alt)

section \<open>Excluded directories\<close>

text \<open>
  C7. A directory entry whose joined path matches the exclusion pattern is not
  traversed: the loop goes on to the next entry with the running size, the counter
  and the flag unchanged, nothing printed and one warning logged, whatever the
  directory contains. Hence the result and the standard output of \<open>getDirSize\<close>
  on a listing are those on the listing without that entry: the directory adds 0 to
  the size of its parent, and no line is printed for it or for a descendant.
\<close>

theorem excluded_directory_skipped:
  assumes "shouldSkipDir v (join dir name)"
  shows "entriesLoop v join dir (Directory name sub # rest) acc s
           = entriesLoop v join dir rest acc (log_Printf (WarnIgnoreDir (join dir name)) s)
         \<and> fst (getDirSize v join dir (Entries (before @ Directory name sub # rest)) s)
             = fst (getDirSize v join dir (Entries (before @ rest)) s)
         \<and> stdout (snd (getDirSize v join dir (Entries (before @ Directory name sub # rest)) s))
             = stdout (snd (getDirSize v join dir (Entries (before @ rest)) s))"
proof -
  have step: "entriesLoop v join dir (Directory name sub # rest) a x
           = entriesLoop v join dir rest a (log_Printf (WarnIgnoreDir (join dir name)) x)"
    for a x
    using assms by simp
  obtain r s' where b: "entriesLoop v join dir before (0, 0, False) s = (r, s')"
    by (cases "entriesLoop v join dir before (0, 0, False) s")
  have "fst (entriesLoop v join dir (before @ Directory name sub # rest) (0, 0, False) s)
          = fst (entriesLoop v join dir (before @ rest) (0, 0, False) s)
        \<and> stdout (snd (entriesLoop v join dir (before @ Directory name sub # rest) (0, 0, False) s))
          = stdout (snd (entriesLoop v join dir (before @ rest) (0, 0, False) s))"
    by (cases r) (simp_all add: entriesLoop_append b assms entriesLoop_log_Printf)
  then have "fst (getDirSize v join dir (Entries (before @ Directory name sub # rest)) s)
             = fst (getDirSize v join dir (Entries (before @ rest)) s)
         \<and> stdout (snd (getDirSize v join dir (Entries (before @ Directory name sub # rest)) s))
             = stdout (snd (getDirSize v join dir (Entries (before @ rest)) s))"
    by (cases "entriesLoop v join dir (before @ Directory name sub # rest) (0, 0, False) s";
        cases "entriesLoop v join dir (before @ rest) (0, 0, False) s")
       (auto split: outcome.splits)
  with step show ?thesis by simp
qed

theorem excluded_directory_skipped_witness:
  "shouldSkipDir exampleConfig (joinSlash ''/r'' ''tmp'')
   \<and> entriesLoop exampleConfig joinSlash ''/r''
         (Directory ''tmp'' (Entries [Regular ''big'' (Some 500) None]) # [Other ''var'']) (50, 0, False) io0
       = entriesLoop exampleConfig joinSlash ''/r'' [Other ''var''] (50, 0, False)
           (log_Printf (WarnIgnoreDir (joinSlash ''/r'' ''tmp'')) io0)
   \<and> fst (getDirSize exampleConfig joinSlash ''/r''
         (Entries ([Regular ''a'' (Some 50) None] @ Directory ''tmp'' (Entries [Regular ''big'' (Some 500) None]) # [Other ''var''])) io0)
       = fst (getDirSize exampleConfig joinSlash ''/r''
         (Entries ([Regular ''a'' (Some 50) None] @ [Other ''var''])) io0)
   \<and> stdout (snd (getDirSize exampleConfig joinSlash ''/r''
         (Entries ([Regular ''a'' (Some 50) None] @ Directory ''tmp'' (Entries [Regular ''big'' (Some 500) None]) # [Other ''var''])) io0))
       = stdout (snd (getDirSize exampleConfig joinSlash ''/r''
         (Entries ([Regular ''a'' (Some 50) None] @ [Other ''var''])) io0))"
proof -
  have h: "shouldSkipDir exampleConfig (joinSlash ''/r'' ''tmp'')"
    by (simp add: exampleConfig_def joinSlash_def shouldSkipDir_def)
  from excluded_directory_skipped [where v = exampleConfig and join = joinSlash
      and dir = "''/r''" and name = "''tmp''" and sub = "Entries [Regular ''big'' (Some 500) None]"
      and rest = "[Other ''var'']" and acc = "(50, 0, False)" and s = io0
      and before = "[Regular ''a'' (Some 50) None]", OF h] h
  show ?thesis by blast
qed

section \<open>Equivalence with the earlier version\<close>

text \<open>
  C10. With no exclusion pattern (\<open>ignoreRegexp\<close> nil), \<open>getDirSize\<close> of
  \<open>src/main.go\<close> and \<open>getDirSize\<close> of \<open>src/unnamed/part_000\<close>, called with the
  same threshold, return the same result and leave the same output, on every tree.
\<close>

theorem getDirSize_refines_part_000:
  "ignoreRegexp v = None \<Longrightarrow>
     getDirSize v join dir t s = getDirSize_part_000 join dir (sizeThreshold v) t s"
  by (rule walk_eq_part_000)

theorem getDirSize_refines_part_000_witness:
  "ignoreRegexp plainConfig = None
   \<and> getDirSize plainConfig joinSlash ''/r'' exampleTree io0
       = getDirSize_part_000 joinSlash ''/r'' (sizeThreshold plainConfig) exampleTree io0"
proof -
  have h: "ignoreRegexp plainConfig = None" by (simp add: plainConfig_def)
  from getDirSize_refines_part_000 [OF h, of joinSlash "''/r''" exampleTree io0] h
  show ?thesis by blast
qed

section \<open>No double counting\<close>

text \<open>
  C4. The sizes of the printed entries against the size computed for the root. As
  amended: when the scan returns, file sizes are non-negative and the exact total
  lies in the range of \<open>int64\<close>, the sum of the sizes on the printed lines of
  regular files never exceeds the cumulative size computed for the root.
\<close>

theorem printed_files_within_root:
  assumes "\<not> nilFileInfo v join dir root" and "sizesNonneg root"
    and "subtreeSize v join dir root < 2 ^ 63"
  shows "\<exists>w n. fst (getDirSize v join dir root io0) = Return (w, n, None)
           \<and> printedFileSizes (stdout (snd (visualise v join dir root io0))) \<le> sint w"
proof -
  from getDirSize_returns [OF assms(1), of io0] obtain n s' where
    g: "getDirSize v join dir root io0
          = (Return (word_of_int (subtreeSize v join dir root), n, None), s')"
    by blast
  from subtreeSize_nonneg [OF assms(2), of v join dir]
  have "- (2 ^ 63) \<le> subtreeSize v join dir root" by simp
  with assms(3)
  have w: "sint (word_of_int (subtreeSize v join dir root) :: int64) = subtreeSize v join dir root"
    by (simp add: sint_sbintrunc' signed_take_bit_int_eq_self)
  from getDirSize_printed_files [OF assms(2), of v join dir io0]
  have "printedFileSizes (stdout (snd (visualise v join dir root io0)))
          \<le> subtreeSize v join dir root"
    by (simp add: visualise_printed_files io0_def)
  with g w show ?thesis by simp
qed

theorem printed_files_within_root_witness:
  "\<not> nilFileInfo exampleConfig joinSlash ''/r'' exampleTree
   \<and> sizesNonneg exampleTree
   \<and> subtreeSize exampleConfig joinSlash ''/r'' exampleTree < 2 ^ 63
   \<and> (\<exists>w n. fst (getDirSize exampleConfig joinSlash ''/r'' exampleTree io0) = Return (w, n, None)
          \<and> printedFileSizes (stdout (snd (visualise exampleConfig joinSlash ''/r'' exampleTree io0)))
               \<le> sint w)"
proof -
  have a: "\<not> nilFileInfo exampleConfig joinSlash ''/r'' exampleTree"
    by (simp add: exampleConfig_def exampleTree_def joinSlash_def shouldSkipDir_def)
  have b: "sizesNonneg exampleTree"
    by (simp add: exampleTree_def word_sle_eq)
  have c: "subtreeSize exampleConfig joinSlash ''/r'' exampleTree < 2 ^ 63"
    by (simp add: exampleConfig_def exampleTree_def joinSlash_def shouldSkipDir_def)
  from printed_files_within_root [OF a b c] a b c show ?thesis by blast
qed

text \<open>
  As first stated, over all printed entries, the claim fails: a printed file is
  counted again in the printed size of each printed directory above it. In \<open>/r\<close>
  with the directory \<open>a\<close> holding the file \<open>f\<close> of 150 bytes, threshold 100, the
  lines of \<open>/r/a/f\<close>, \<open>/r/a\<close> and \<open>/r\<close> carry 150 bytes each, 450 in all (300
  without the line of the root, which \<open>visualise\<close> prints), against a root size of
  150.
\<close>

theorem printed_sizes_exceed_root:
  "stdout (snd (visualise \<lparr>sizeThreshold = 100, ignoreRegexp = None\<rparr> joinSlash ''/r''
     (Entries [Directory ''a'' (Entries [Regular ''f'' (Some 150) None])]) io0))
     = [Blank, Line FileEntry ''/r/a/f'' 150, Line DirEntry ''/r/a'' 150, Blank,
        Line RootDir ''/r'' 150, Blank]
   \<and> printedSizes (stdout (snd (visualise \<lparr>sizeThreshold = 100, ignoreRegexp = None\<rparr> joinSlash ''/r''
     (Entries [Directory ''a'' (Entries [Regular ''f'' (Some 150) None])]) io0))) = 450
   \<and> printedSizes (stdout (snd (getDirSize \<lparr>sizeThreshold = 100, ignoreRegexp = None\<rparr> joinSlash ''/r''
     (Entries [Directory ''a'' (Entries [Regular ''f'' (Some 150) None])]) io0))) = 300
   \<and> fst (getDirSize \<lparr>sizeThreshold = 100, ignoreRegexp = None\<rparr> joinSlash ''/r''
     (Entries [Directory ''a'' (Entries [Regular ''f'' (Some 150) None])]) io0) = Return (150, 0, None)
   \<and> sint (150 :: int64) = 150"
  by (simp add: visualise_def io0_def joinSlash_def printEntry_def Println_def Printf_def
        shouldSkipDir_def printedSizes_def)

end
